theory Spec2Isabelle
  imports Main "HOL-Library.Sublist"
begin

section \<open>Values, responses and the host\<close>

text \<open>
  The middleware of \<^verbatim>\<open>src/middleware.js\<close> is two closures over a mutable response
  object. Function values are first class in the source (the \<^verbatim>\<open>send\<close> slot of the
  response holds one, the logger is one), so they are values of the model too: a host
  function is \<open>Native n\<close>, and the two closures the source creates are
  \<open>Interceptor res send\<close> (line 11, closed over \<^verbatim>\<open>res\<close> and \<^verbatim>\<open>send\<close>) and
  \<open>FinishListener logger res\<close> (lines 27 to 29, closed over \<^verbatim>\<open>logger\<close> and
  \<^verbatim>\<open>res\<close>). Response objects live in a store and are named by their address.
\<close>

datatype val =
    Undefined
  | Null
  | Bool bool
  | Num int
  | Str string
  | Obj "(string \<times> val) list"
  | Ref nat
  | Native nat
  | Interceptor nat val
  | FinishListener val nat

datatype exn = TypeError | Thrown val

record response =
  send :: val
  contentBody :: "val option"
  finish_listeners :: "val list"

record request =
  req_method :: val
  url :: val
  hostname :: val

record store =
  heap :: "nat \<Rightarrow> response"
  ext :: nat

text \<open>
  What a run does, in order: the host functions it enters (with receiver and arguments),
  the property writes on a response, the listener registrations and the call of the
  continuation.
\<close>

datatype event =
    ECall val "nat option" "val list"
  | ESetContentBody nat val
  | ESetSend nat val
  | EOn nat val
  | ENext

type_synonym outcome = "exn + val"

type_synonym host = "nat \<Rightarrow> nat option \<Rightarrow> val list \<Rightarrow> store \<Rightarrow> outcome \<times> store"

type_synonym run = "event list \<times> outcome \<times> store"

text \<open>Reading \<^verbatim>\<open>res.contentBody\<close>: a property that was never written reads as undefined.\<close>

definition get_contentBody :: "response \<Rightarrow> val" where
  "get_contentBody r = (case contentBody r of None \<Rightarrow> Undefined | Some v \<Rightarrow> v)"

definition set_contentBody :: "nat \<Rightarrow> val \<Rightarrow> store \<Rightarrow> store" where
  "set_contentBody res v s = s\<lparr>heap := (heap s)(res := (heap s res)\<lparr>contentBody := Some v\<rparr>)\<rparr>"

definition set_send :: "nat \<Rightarrow> val \<Rightarrow> store \<Rightarrow> store" where
  "set_send res v s = s\<lparr>heap := (heap s)(res := (heap s res)\<lparr>send := v\<rparr>)\<rparr>"

text \<open>\<^verbatim>\<open>res.on("finish", l)\<close>: the listener is added after those already registered.\<close>

definition on_finish :: "nat \<Rightarrow> val \<Rightarrow> store \<Rightarrow> store" where
  "on_finish res l s =
     s\<lparr>heap := (heap s)(res := (heap s res)\<lparr>finish_listeners := finish_listeners (heap s res) @ [l]\<rparr>)\<rparr>"

text \<open>The first parameter of a function called with \<open>args\<close>; a missing argument is undefined.\<close>

definition param0 :: "val list \<Rightarrow> val" where
  "param0 args = (case args of [] \<Rightarrow> Undefined | x # _ \<Rightarrow> x)"

section \<open>Calling a function value\<close>

text \<open>
  \<open>call h f this args s\<close> applies the value \<open>f\<close>. A host function is entered and does
  what the host \<open>h\<close> says. The interceptor is the body of lines 12 to 14: it writes
  \<^verbatim>\<open>contentBody\<close>, writes \<^verbatim>\<open>send\<close>, then calls whatever the slot now holds as a
  method of \<^verbatim>\<open>res\<close>; the body has no \<^verbatim>\<open>return\<close>, so a normal completion yields undefined,
  and it has no \<^verbatim>\<open>try\<close>, so an exception passes through. The listener is the
  block of lines 27 to 29: it calls the logger, drops the value the logger returns and
  yields undefined, and it catches nothing either.
  Calling anything that is not a function throws a TypeError.
\<close>

function (sequential) call :: "host \<Rightarrow> val \<Rightarrow> nat option \<Rightarrow> val list \<Rightarrow> store \<Rightarrow> run" where
  "call h (Native n) this args s =
     (case h n this args s of (r, s') \<Rightarrow> ([ECall (Native n) this args], r, s'))"
| "call h (Interceptor res send0) this args s =
     (let content = param0 args;
          s1 = set_contentBody res content s;
          s2 = set_send res send0 s1
      in case call h (send (heap s2 res)) (Some res) [content] s2 of
           (evs, Inl e, s3) \<Rightarrow> (ESetContentBody res content # ESetSend res send0 # evs, Inl e, s3)
         | (evs, Inr v, s3) \<Rightarrow> (ESetContentBody res content # ESetSend res send0 # evs, Inr Undefined, s3))"
| "call h (FinishListener logger res) this args s =
     (case call h logger None [Str ''SEND >>>'', get_contentBody (heap s res)] s of
        (evs, Inl e, s1) \<Rightarrow> (evs, Inl e, s1)
      | (evs, Inr v, s1) \<Rightarrow> (evs, Inr Undefined, s1))"
| "call h _ this args s = ([], Inl TypeError, s)"
  by pat_completeness auto
termination
  by (relation "measure (\<lambda>(h, f, this, args, s). size f)")
     (auto simp: set_send_def set_contentBody_def)

section \<open>The downstream chain and the completion signal\<close>

text \<open>
  The handler chain behind \<^verbatim>\<open>next\<close> and the transport are not part of the repository.
  What they do to the response is given as a script: \<open>ASend c\<close> is a handler's
  \<^verbatim>\<open>res.send(c)\<close>, a method call of whatever the slot holds at that moment, and
  \<open>AFinish\<close> is the transport emitting \<^verbatim>\<open>finish\<close>, which calls the registered listeners
  in registration order with the response as receiver. An exception ends the script.
  The body of the middleware has no statement after \<^verbatim>\<open>next()\<close>, so the script also
  stands for what happens to the response in later turns of the event loop.
\<close>

datatype action = ASend val | AFinish

definition res_send :: "host \<Rightarrow> nat \<Rightarrow> val \<Rightarrow> store \<Rightarrow> run" where
  "res_send h res c s = call h (send (heap s res)) (Some res) [c] s"

fun emit_listeners :: "host \<Rightarrow> nat \<Rightarrow> val list \<Rightarrow> store \<Rightarrow> run" where
  "emit_listeners h res [] s = ([], Inr Undefined, s)"
| "emit_listeners h res (l # ls) s =
     (case call h l (Some res) [] s of
        (evs, Inl e, s1) \<Rightarrow> (evs, Inl e, s1)
      | (evs, Inr v, s1) \<Rightarrow>
          (case emit_listeners h res ls s1 of (evs2, r, s2) \<Rightarrow> (evs @ evs2, r, s2)))"

definition emit_finish :: "host \<Rightarrow> nat \<Rightarrow> store \<Rightarrow> run" where
  "emit_finish h res s = emit_listeners h res (finish_listeners (heap s res)) s"

fun perform :: "host \<Rightarrow> nat \<Rightarrow> action \<Rightarrow> store \<Rightarrow> run" where
  "perform h res (ASend c) s = res_send h res c s"
| "perform h res AFinish s = emit_finish h res s"

fun run_actions :: "host \<Rightarrow> nat \<Rightarrow> action list \<Rightarrow> store \<Rightarrow> run" where
  "run_actions h res [] s = ([], Inr Undefined, s)"
| "run_actions h res (x # xs) s =
     (case perform h res x s of
        (evs, Inl e, s1) \<Rightarrow> (evs, Inl e, s1)
      | (evs, Inr v, s1) \<Rightarrow>
          (case run_actions h res xs s1 of (evs2, r, s2) \<Rightarrow> (evs @ evs2, r, s2)))"

section \<open>The middleware\<close>

text \<open>
  \<^verbatim>\<open>resDotSendInterceptor(res, send)\<close> only builds the closure; its body is the
  \<open>Interceptor\<close> equation of \<open>call\<close>.
\<close>

definition resDotSendInterceptor :: "nat \<Rightarrow> val \<Rightarrow> val" where
  "resDotSendInterceptor res send0 = Interceptor res send0"

text \<open>
  Reading a property for the parameter pattern \<^verbatim>\<open>{ logger }\<close> of line 24: undefined and
  null cannot be destructured, an object yields the property or undefined, and every
  other value has no such property.
\<close>

definition get_prop :: "val \<Rightarrow> string \<Rightarrow> exn + val" where
  "get_prop v k =
     (case v of
        Undefined \<Rightarrow> Inl TypeError
      | Null \<Rightarrow> Inl TypeError
      | Obj ps \<Rightarrow> (case map_of ps k of None \<Rightarrow> Inr Undefined | Some x \<Rightarrow> Inr x)
      | _ \<Rightarrow> Inr Undefined)"

datatype middleware = Middleware val

text \<open>Line 24, outer arrow: the configuration is destructured and the closure returned.\<close>

definition requestLoggerMiddleware :: "val \<Rightarrow> exn + middleware" where
  "requestLoggerMiddleware config =
     (case get_prop config ''logger'' of
        Inl e \<Rightarrow> Inl e
      | Inr logger \<Rightarrow> Inr (Middleware logger))"

text \<open>
  Lines 25 to 30, the inner arrow applied to \<^verbatim>\<open>(req, res, next)\<close>: the receipt line
  through the logger, the interceptor over the current slot, the listener, the
  continuation. Nothing is caught and nothing is returned.
\<close>

fun middleware_call :: "host \<Rightarrow> middleware \<Rightarrow> request \<Rightarrow> nat \<Rightarrow> action list \<Rightarrow> store \<Rightarrow> run" where
  "middleware_call h (Middleware logger) req res nxt s =
     (case call h logger None [Str ''RECV <<<'', req_method req, url req, hostname req] s of
        (evs1, Inl e, s1) \<Rightarrow> (evs1, Inl e, s1)
      | (evs1, Inr v, s1) \<Rightarrow>
          (let icpt = resDotSendInterceptor res (send (heap s1 res));
               s2 = set_send res icpt s1;
               l = FinishListener logger res;
               s3 = on_finish res l s2
           in case run_actions h res nxt s3 of
                (evs2, Inl e, s4) \<Rightarrow> (evs1 @ [ESetSend res icpt, EOn res l, ENext] @ evs2, Inl e, s4)
              | (evs2, Inr v, s4) \<Rightarrow>
                  (evs1 @ [ESetSend res icpt, EOn res l, ENext] @ evs2, Inr Undefined, s4)))"

section \<open>Observations and assumptions on the host\<close>

text \<open>The log of a run: the argument lists the logger was entered with, in order.\<close>

fun log_entries :: "val \<Rightarrow> event list \<Rightarrow> val list list" where
  "log_entries lg [] = []"
| "log_entries lg (ECall f this args # evs) =
     (if f = lg then args # log_entries lg evs else log_entries lg evs)"
| "log_entries lg (_ # evs) = log_entries lg evs"

definition receipt :: "request \<Rightarrow> val list" where
  "receipt req = [Str ''RECV <<<'', req_method req, url req, hostname req]"

text \<open>
  \<open>frame h res\<close>: no host function writes the modelled properties of the response at
  \<open>res\<close>. \<open>returns h\<close>: no host function throws.
\<close>

definition frame :: "host \<Rightarrow> nat \<Rightarrow> bool" where
  "frame h res = (\<forall>n this args s. heap (snd (h n this args s)) res = heap s res)"

definition returns :: "host \<Rightarrow> bool" where
  "returns h = (\<forall>n this args s. \<exists>v. fst (h n this args s) = Inr v)"

fun is_native :: "val \<Rightarrow> bool" where
  "is_native (Native n) = True"
| "is_native _ = False"

text \<open>The values that can be called: host functions and the two closures.\<close>

fun callable :: "val \<Rightarrow> bool" where
  "callable (Native n) = True"
| "callable (Interceptor res send0) = True"
| "callable (FinishListener logger res) = True"
| "callable _ = False"

section \<open>The response state machine\<close>

text \<open>
  After the middleware has run on a response whose slot held the host function \<open>k\<close>,
  with logger \<open>n\<close> and earlier listeners \<open>ls\<close>, the response is pending (the
  interceptor is installed) until the first send and sent afterwards. \<open>step_trace\<close>
  lists the events of one action in a phase, \<open>cb\<close> being what \<^verbatim>\<open>res.contentBody\<close>
  reads as, and \<open>step_phase\<close> gives the phase and that value after the action.
\<close>

fun step_trace :: "nat \<Rightarrow> nat \<Rightarrow> nat \<Rightarrow> val list \<Rightarrow> bool \<Rightarrow> val \<Rightarrow> action \<Rightarrow> event list" where
  "step_trace res k n ls pending cb (ASend c) =
     (if pending
      then [ESetContentBody res c, ESetSend res (Native k), ECall (Native k) (Some res) [c]]
      else [ECall (Native k) (Some res) [c]])"
| "step_trace res k n ls pending cb AFinish =
     map (\<lambda>l. ECall l (Some res) []) ls @ [ECall (Native n) None [Str ''SEND >>>'', cb]]"

fun step_phase :: "bool \<Rightarrow> val \<Rightarrow> action \<Rightarrow> bool \<times> val" where
  "step_phase pending cb (ASend c) = (if pending then (False, c) else (False, cb))"
| "step_phase pending cb AFinish = (pending, cb)"

fun script_trace :: "nat \<Rightarrow> nat \<Rightarrow> nat \<Rightarrow> val list \<Rightarrow> bool \<Rightarrow> val \<Rightarrow> action list \<Rightarrow> event list" where
  "script_trace res k n ls pending cb [] = []"
| "script_trace res k n ls pending cb (x # xs) =
     step_trace res k n ls pending cb x @
     script_trace res k n ls (fst (step_phase pending cb x)) (snd (step_phase pending cb x)) xs"

fun script_phase :: "bool \<Rightarrow> val \<Rightarrow> action list \<Rightarrow> bool \<times> val" where
  "script_phase pending cb [] = (pending, cb)"
| "script_phase pending cb (x # xs) =
     script_phase (fst (step_phase pending cb x)) (snd (step_phase pending cb x)) xs"

definition phase_inv :: "nat \<Rightarrow> nat \<Rightarrow> nat \<Rightarrow> val list \<Rightarrow> bool \<Rightarrow> val \<Rightarrow> store \<Rightarrow> bool" where
  "phase_inv res k n ls pending cb s \<longleftrightarrow>
     send (heap s res) = (if pending then Interceptor res (Native k) else Native k)
     \<and> finish_listeners (heap s res) = ls @ [FinishListener (Native n) res]
     \<and> get_contentBody (heap s res) = cb"

section \<open>A concrete host\<close>

text \<open>
  Host function 0 stands for \<^verbatim>\<open>console.log\<close> (returns undefined and counts the lines
  written), every other one for a method of the framework, which returns its receiver:
  1 is its \<^verbatim>\<open>send\<close> and 2 a completion listener of the server's own.
  \<open>failing_host\<close> throws on every call.
\<close>

definition demo_host :: host where
  "demo_host n this args s =
     (if n = 0 then (Inr Undefined, s\<lparr>ext := Suc (ext s)\<rparr>)
      else (Inr (case this of None \<Rightarrow> Undefined | Some a \<Rightarrow> Ref a), s))"

definition failing_host :: host where
  "failing_host n this args s = (Inl (Thrown (Str ''boom'')), s)"

definition fresh_response :: response where
  "fresh_response = \<lparr>send = Native 1, contentBody = None, finish_listeners = [Native 2]\<rparr>"

definition demo_store :: store where
  "demo_store = \<lparr>heap = (\<lambda>a. fresh_response), ext = 0\<rparr>"

definition demo_request :: request where
  "demo_request = \<lparr>req_method = Str ''GET'', url = Str ''/api/health'', hostname = Str ''localhost''\<rparr>"

section \<open>Basic facts\<close>

lemma heap_set_send [simp]:
  "heap (set_send res v s) = (heap s)(res := (heap s res)\<lparr>send := v\<rparr>)"
  by (simp add: set_send_def)

lemma heap_set_contentBody [simp]:
  "heap (set_contentBody res v s) = (heap s)(res := (heap s res)\<lparr>contentBody := Some v\<rparr>)"
  by (simp add: set_contentBody_def)

lemma heap_on_finish [simp]:
  "heap (on_finish res l s) =
     (heap s)(res := (heap s res)\<lparr>finish_listeners := finish_listeners (heap s res) @ [l]\<rparr>)"
  by (simp add: on_finish_def)

lemma call_Interceptor:
  "call h (Interceptor res send0) this args s =
     (case call h send0 (Some res) [param0 args] (set_send res send0 (set_contentBody res (param0 args) s)) of
        (evs, r, s3) \<Rightarrow>
          (ESetContentBody res (param0 args) # ESetSend res send0 # evs,
           (case r of Inl e \<Rightarrow> Inl e | Inr v \<Rightarrow> Inr Undefined), s3))"
  by (simp add: Let_def split: prod.splits sum.splits)

lemma call_Native:
  "call h (Native n) this args s = ([ECall (Native n) this args], fst (h n this args s), snd (h n this args s))"
  by (simp add: split_beta)

lemma call_FinishListener:
  "call h (FinishListener logger res) this args s =
     (case call h logger None [Str ''SEND >>>'', get_contentBody (heap s res)] s of
        (evs, r, s1) \<Rightarrow> (evs, (case r of Inl e \<Rightarrow> Inl e | Inr v \<Rightarrow> Inr Undefined), s1))"
  by (simp split: prod.splits sum.splits)

lemma call_not_callable: "\<not> callable f \<Longrightarrow> call h f this args s = ([], Inl TypeError, s)"
  by (cases f) simp_all

lemma middleware_call_unfold:
  "middleware_call h (Middleware logger) req res nxt s =
     (case call h logger None (receipt req) s of
        (evs1, Inl e, s1) \<Rightarrow> (evs1, Inl e, s1)
      | (evs1, Inr v, s1) \<Rightarrow>
          (case run_actions h res nxt
                  (on_finish res (FinishListener logger res)
                     (set_send res (Interceptor res (send (heap s1 res))) s1)) of
             (evs2, r, s4) \<Rightarrow>
               (evs1 @ [ESetSend res (Interceptor res (send (heap s1 res))),
                        EOn res (FinishListener logger res), ENext] @ evs2,
                (case r of Inl e \<Rightarrow> Inl e | Inr v \<Rightarrow> Inr Undefined), s4)))"
  by (simp add: receipt_def resDotSendInterceptor_def Let_def split: prod.splits sum.splits)

declare call.simps [simp del]
declare middleware_call.simps [simp del]


lemma frame_heap: "frame h res \<Longrightarrow> heap (snd (h n this args s)) res = heap s res"
  by (simp add: frame_def)

lemma res_send_pending:
  assumes "frame h res" and "send (heap s res) = Interceptor res (Native k)"
  shows "fst (res_send h res c s) =
           [ESetContentBody res c, ESetSend res (Native k), ECall (Native k) (Some res) [c]]"
    and "heap (snd (snd (res_send h res c s))) res =
           (heap s res)\<lparr>contentBody := Some c, send := Native k\<rparr>"
  using assms
  by (simp_all add: res_send_def call_Interceptor call_Native param0_def split_beta frame_heap)

lemma res_send_sent:
  assumes "frame h res" and "send (heap s res) = Native k"
  shows "fst (res_send h res c s) = [ECall (Native k) (Some res) [c]]"
    and "heap (snd (snd (res_send h res c s))) res = heap s res"
  using assms by (simp_all add: res_send_def call_Native frame_heap)

lemma emit_listeners_append:
  "emit_listeners h res (xs @ ys) s =
     (case emit_listeners h res xs s of
        (evs, Inl e, s1) \<Rightarrow> (evs, Inl e, s1)
      | (evs, Inr v, s1) \<Rightarrow>
          (case emit_listeners h res ys s1 of (evs2, r, s2) \<Rightarrow> (evs @ evs2, r, s2)))"
  by (induction xs arbitrary: s) (auto split: prod.splits sum.splits)

lemma emit_natives:
  assumes "frame h res" and "list_all is_native ls"
  shows "heap (snd (snd (emit_listeners h res ls s))) res = heap s res
     \<and> prefix (fst (emit_listeners h res ls s)) (map (\<lambda>l. ECall l (Some res) []) ls)
     \<and> (\<forall>v. fst (snd (emit_listeners h res ls s)) = Inr v \<longrightarrow>
          fst (emit_listeners h res ls s) = map (\<lambda>l. ECall l (Some res) []) ls)"
  using assms
proof (induction ls arbitrary: s)
  case Nil
  then show ?case by simp
next
  case (Cons l ls)
  then obtain m where l: "l = Native m" by (cases l) auto
  from Cons have ih: "\<And>s. heap (snd (snd (emit_listeners h res ls s))) res = heap s res
     \<and> prefix (fst (emit_listeners h res ls s)) (map (\<lambda>l. ECall l (Some res) []) ls)
     \<and> (\<forall>v. fst (snd (emit_listeners h res ls s)) = Inr v \<longrightarrow>
          fst (emit_listeners h res ls s) = map (\<lambda>l. ECall l (Some res) []) ls)"
    by simp
  show ?case
  proof (cases "fst (h m (Some res) [] s)")
    case (Inl e)
    then show ?thesis using Cons.prems(1) by (simp add: l call_Native frame_heap)
  next
    case (Inr v)
    then show ?thesis
      using Cons.prems(1) ih [of "snd (h m (Some res) [] s)"]
      by (simp add: l call_Native frame_heap split_beta)
  qed
qed


lemma emit_finish_installed:
  assumes "frame h res" and "list_all is_native ls"
    and "finish_listeners (heap s res) = ls @ [FinishListener (Native n) res]"
  shows "heap (snd (snd (emit_finish h res s))) res = heap s res
     \<and> prefix (fst (emit_finish h res s))
          (map (\<lambda>l. ECall l (Some res) []) ls @
           [ECall (Native n) None [Str ''SEND >>>'', get_contentBody (heap s res)]])
     \<and> (\<forall>v. fst (snd (emit_finish h res s)) = Inr v \<longrightarrow>
          fst (emit_finish h res s) =
            map (\<lambda>l. ECall l (Some res) []) ls @
            [ECall (Native n) None [Str ''SEND >>>'', get_contentBody (heap s res)]])"
proof (cases "fst (snd (emit_listeners h res ls s))")
  case (Inl e)
  then show ?thesis
    using assms(3) emit_natives [OF assms(1,2), of s]
    by (simp add: emit_finish_def emit_listeners_append split_beta)
next
  case (Inr v)
  then show ?thesis
    using assms(1,3) emit_natives [OF assms(1,2), of s]
    by (simp add: emit_finish_def emit_listeners_append split_beta call_FinishListener
          call_Native frame_heap split: sum.splits)
qed

lemma perform_refines:
  assumes "frame h res" and "list_all is_native ls" and "phase_inv res k n ls p cb s"
  shows "phase_inv res k n ls (fst (step_phase p cb x)) (snd (step_phase p cb x))
           (snd (snd (perform h res x s)))
     \<and> prefix (fst (perform h res x s)) (step_trace res k n ls p cb x)
     \<and> (\<forall>v. fst (snd (perform h res x s)) = Inr v \<longrightarrow>
          fst (perform h res x s) = step_trace res k n ls p cb x)"
proof (cases x)
  case (ASend c)
  show ?thesis
  proof (cases p)
    case True
    then show ?thesis
      using assms(3) res_send_pending [OF assms(1), of s k c]
      by (simp add: ASend phase_inv_def get_contentBody_def)
  next
    case False
    then show ?thesis
      using assms(3) res_send_sent [OF assms(1), of s k c]
      by (simp add: ASend phase_inv_def)
  qed
next
  case AFinish
  then show ?thesis
    using assms(3) emit_finish_installed [OF assms(1,2), of s n]
    by (simp add: phase_inv_def)
qed

lemma run_actions_refines:
  assumes "frame h res" and "list_all is_native ls"
  shows "phase_inv res k n ls p cb s \<Longrightarrow>
     prefix (fst (run_actions h res xs s)) (script_trace res k n ls p cb xs)
     \<and> (\<forall>v. fst (snd (run_actions h res xs s)) = Inr v \<longrightarrow>
          fst (run_actions h res xs s) = script_trace res k n ls p cb xs
          \<and> phase_inv res k n ls (fst (script_phase p cb xs)) (snd (script_phase p cb xs))
               (snd (snd (run_actions h res xs s))))"
proof (induction xs arbitrary: p cb s)
  case Nil
  then show ?case by auto
next
  case (Cons x xs)
  note st = perform_refines [OF assms Cons.prems, of x]
  show ?case
  proof (cases "fst (snd (perform h res x s))")
    case (Inl e)
    then show ?thesis using st by (auto simp: split_beta)
  next
    case (Inr v)
    from st have inv': "phase_inv res k n ls (fst (step_phase p cb x)) (snd (step_phase p cb x))
           (snd (snd (perform h res x s)))" by simp
    from Inr show ?thesis using st Cons.IH [OF inv'] by (auto simp: split_beta)
  qed
qed

lemma returns_Inr: "returns h \<Longrightarrow> \<exists>v. fst (h n this args s) = Inr v"
  by (simp add: returns_def)

lemma emit_natives_returns:
  assumes "returns h" and "list_all is_native ls"
  shows "\<exists>v. fst (snd (emit_listeners h res ls s)) = Inr v"
  using assms(2)
proof (induction ls arbitrary: s)
  case Nil
  then show ?case by simp
next
  case (Cons l ls)
  then obtain m where l: "l = Native m" by (cases l) auto
  obtain v where v: "fst (h m (Some res) [] s) = Inr v"
    using returns_Inr [OF assms(1)] by blast
  from Cons have "\<exists>v. fst (snd (emit_listeners h res ls (snd (h m (Some res) [] s)))) = Inr v"
    by simp
  then show ?case by (simp add: l call_Native v split_beta)
qed

lemma perform_returns:
  assumes "returns h" and "list_all is_native ls" and "phase_inv res k n ls p cb s"
  shows "\<exists>v. fst (snd (perform h res x s)) = Inr v"
proof (cases x)
  case (ASend c)
  obtain v where v: "fst (h k (Some res) [c] (set_send res (Native k) (set_contentBody res c s))) = Inr v"
    using returns_Inr [OF assms(1)] by blast
  obtain w where w: "fst (h k (Some res) [c] s) = Inr w"
    using returns_Inr [OF assms(1)] by blast
  show ?thesis using assms(3) v w
    by (cases p) (simp_all add: ASend phase_inv_def res_send_def call_Interceptor call_Native
                     param0_def split_beta)
next
  case AFinish
  obtain v where v: "fst (snd (emit_listeners h res ls s)) = Inr v"
    using emit_natives_returns [OF assms(1,2)] by blast
  obtain w where w: "fst (h n None [Str ''SEND >>>'', get_contentBody (heap (snd (snd (emit_listeners h res ls s))) res)]
                       (snd (snd (emit_listeners h res ls s)))) = Inr w"
    using returns_Inr [OF assms(1)] by blast
  show ?thesis using assms(3) v w
    by (simp add: AFinish phase_inv_def emit_finish_def emit_listeners_append split_beta
          call_FinishListener call_Native)
qed

lemma run_actions_returns:
  assumes "frame h res" and "returns h" and "list_all is_native ls"
  shows "phase_inv res k n ls p cb s \<Longrightarrow> fst (snd (run_actions h res xs s)) = Inr Undefined"
proof (induction xs arbitrary: p cb s)
  case Nil
  then show ?case by simp
next
  case (Cons x xs)
  obtain v where v: "fst (snd (perform h res x s)) = Inr v"
    using perform_returns [OF assms(2,3) Cons.prems] by blast
  from perform_refines [OF assms(1,3) Cons.prems, of x]
  have inv': "phase_inv res k n ls (fst (step_phase p cb x)) (snd (step_phase p cb x))
           (snd (snd (perform h res x s)))" by simp
  show ?case using v Cons.IH [OF inv'] by (simp add: split_beta)
qed

lemma log_entries_append: "log_entries lg (xs @ ys) = log_entries lg xs @ log_entries lg ys"
  by (induction lg xs rule: log_entries.induct) simp_all

lemma log_entries_prefix: "prefix xs ys \<Longrightarrow> prefix (log_entries lg xs) (log_entries lg ys)"
  by (auto simp: prefix_def log_entries_append)

lemma log_entries_listeners:
  "lg \<notin> set ls \<Longrightarrow> log_entries lg (map (\<lambda>l. ECall l this args) ls) = []"
  by (induction ls) auto

lemma middleware_call_installs:
  assumes "frame h res" and "send (heap s res) = Native k"
    and "fst (h n None (receipt req) s) = Inr v"
  shows "middleware_call h (Middleware (Native n)) req res nxt s =
     (case run_actions h res nxt
             (on_finish res (FinishListener (Native n) res)
                (set_send res (Interceptor res (Native k)) (snd (h n None (receipt req) s)))) of
        (evs, r, s') \<Rightarrow>
          (ECall (Native n) None (receipt req) # ESetSend res (Interceptor res (Native k)) #
           EOn res (FinishListener (Native n) res) # ENext # evs,
           (case r of Inl e \<Rightarrow> Inl e | Inr v \<Rightarrow> Inr Undefined), s'))"
    and "phase_inv res k n (finish_listeners (heap s res)) True (get_contentBody (heap s res))
           (on_finish res (FinishListener (Native n) res)
              (set_send res (Interceptor res (Native k)) (snd (h n None (receipt req) s))))"
  using assms
  by (simp_all add: middleware_call_unfold call_Native frame_heap phase_inv_def get_contentBody_def)

lemma middleware_call_fails:
  assumes "fst (h n None (receipt req) s) = Inl e"
  shows "middleware_call h (Middleware (Native n)) req res nxt s =
           ([ECall (Native n) None (receipt req)], Inl e, snd (h n None (receipt req) s))"
  using assms by (simp add: middleware_call_unfold call_Native)


lemma frame_demo_host: "frame demo_host res"
  by (simp add: frame_def demo_host_def)

lemma returns_demo_host: "returns demo_host"
  by (simp add: returns_def demo_host_def)

lemma run_collapse: "p = (fst p, fst (snd p), snd (snd p))"
  by simp

section \<open>The interceptor\<close>

text \<open>
  Claim C1. Invoked with content \<open>c\<close>, the interceptor first writes \<open>c\<close> to
  \<^verbatim>\<open>contentBody\<close>, then writes the original operation back into the \<^verbatim>\<open>send\<close> slot,
  and only then calls the original operation with \<open>c\<close>, as a method of the response:
  the run is the two writes followed by the run of the original, which starts in a
  store where \<^verbatim>\<open>contentBody\<close> holds \<open>c\<close> and the slot holds the original. For an
  original that is a host function the trace is exactly these three events.
\<close>

theorem interceptor_steps_in_order:
  "call h (Interceptor res send0) this (c # rest) s =
     (case call h send0 (Some res) [c] (set_send res send0 (set_contentBody res c s)) of
        (evs, r, s3) \<Rightarrow>
          (ESetContentBody res c # ESetSend res send0 # evs,
           (case r of Inl e \<Rightarrow> Inl e | Inr v \<Rightarrow> Inr Undefined), s3))
   \<and> contentBody (heap (set_send res send0 (set_contentBody res c s)) res) = Some c
   \<and> send (heap (set_send res send0 (set_contentBody res c s)) res) = send0
   \<and> fst (call h (Interceptor res (Native k)) this (c # rest) s) =
       [ESetContentBody res c, ESetSend res (Native k), ECall (Native k) (Some res) [c]]"
  by (simp add: call_Interceptor call_Native param0_def split_beta)

text \<open>
  Claim C6, as stated: the interceptor returns what the original operation returns.
  It does not. The body of the interceptor is a block without \<^verbatim>\<open>return\<close>, so the value
  of the original is dropped: with a \<^verbatim>\<open>send\<close> that returns its receiver, the
  interceptor returns undefined.
\<close>

theorem interceptor_result_counterexample:
  "fst (snd (call demo_host (Interceptor 0 (Native 1)) (Some 0) [Str ''x''] demo_store)) = Inr Undefined
   \<and> fst (snd (call demo_host (Native 1) (Some 0) [Str ''x''] demo_store)) = Inr (Ref 0)"
  by (simp add: call_Interceptor call_Native demo_host_def param0_def)

text \<open>
  Claim C6, amended. The interceptor invokes the original operation with \<open>c\<close>; when
  the original returns, whatever value it returns, the interceptor returns undefined,
  and when the original throws, the interceptor throws the same exception.
\<close>

theorem interceptor_result:
  "fst (snd (call h (Interceptor res send0) this (c # rest) s)) =
     (case fst (snd (call h send0 (Some res) [c] (set_send res send0 (set_contentBody res c s)))) of
        Inl e \<Rightarrow> Inl e
      | Inr v \<Rightarrow> Inr Undefined)"
  by (simp add: call_Interceptor param0_def split_beta)

text \<open>
  Claim C7. If the original operation throws \<open>e\<close> when the interceptor invokes it,
  the interceptor throws the same \<open>e\<close>. Its run is the two property writes followed by
  the run of the original, so it enters the logger (any function \<open>lg\<close>) only as often
  as the original itself does: the interceptor adds no log entry.
\<close>

theorem interceptor_propagates_failure:
  assumes "fst (snd (call h send0 (Some res) [c] (set_send res send0 (set_contentBody res c s)))) = Inl e"
  shows "fst (snd (call h (Interceptor res send0) this (c # rest) s)) = Inl e
     \<and> fst (call h (Interceptor res send0) this (c # rest) s) =
         ESetContentBody res c # ESetSend res send0 #
         fst (call h send0 (Some res) [c] (set_send res send0 (set_contentBody res c s)))
     \<and> log_entries lg (fst (call h (Interceptor res send0) this (c # rest) s)) =
         log_entries lg (fst (call h send0 (Some res) [c] (set_send res send0 (set_contentBody res c s))))"
  using assms by (simp add: call_Interceptor param0_def split_beta)

theorem interceptor_propagates_failure_witness:
  "fst (snd (call failing_host (Native 1) (Some 0) [Str ''x'']
        (set_send 0 (Native 1) (set_contentBody 0 (Str ''x'') demo_store)))) = Inl (Thrown (Str ''boom''))
   \<and> fst (snd (call failing_host (Interceptor 0 (Native 1)) (Some 0) [Str ''x''] demo_store)) =
       Inl (Thrown (Str ''boom''))
   \<and> log_entries (Native 0)
       (fst (call failing_host (Interceptor 0 (Native 1)) (Some 0) [Str ''x''] demo_store)) = []"
proof -
  have h: "fst (snd (call failing_host (Native 1) (Some 0) [Str ''x'']
        (set_send 0 (Native 1) (set_contentBody 0 (Str ''x'') demo_store)))) = Inl (Thrown (Str ''boom''))"
    by (simp add: failing_host_def call_Native)
  show ?thesis
    using h interceptor_propagates_failure [OF h, of "Some 0" "[]" "Native 0"]
    by (simp add: call_Native)
qed

section \<open>Constructing and running the middleware\<close>

text \<open>
  Claim C9, as stated: constructing the middleware from a configuration object without
  a logger raises an error at construction time. It does not: destructuring an object
  that has no \<^verbatim>\<open>logger\<close> property binds undefined, and the closure is returned.
\<close>

theorem construction_without_logger_counterexample:
  "requestLoggerMiddleware (Obj []) = Inr (Middleware Undefined)"
  by (simp add: requestLoggerMiddleware_def get_prop_def)

text \<open>
  Claim C9, amended. For a configuration whose \<^verbatim>\<open>logger\<close> property reads as a value
  \<open>lg\<close> that is not a function, construction raises no error and returns the
  middleware; the failure is deferred to the exchanges: every invocation of that
  middleware throws a TypeError at the receipt line, with no event at all, the store
  unchanged and the continuation not invoked.
\<close>

theorem missing_logger_fails_per_request:
  assumes "get_prop config ''logger'' = Inr lg" and "\<not> callable lg"
  shows "requestLoggerMiddleware config = Inr (Middleware lg)
     \<and> middleware_call h (Middleware lg) req res nxt s = ([], Inl TypeError, s)"
  using assms
  by (simp add: requestLoggerMiddleware_def middleware_call_unfold call_not_callable)

theorem missing_logger_fails_per_request_witness:
  "get_prop (Obj []) ''logger'' = Inr Undefined \<and> \<not> callable Undefined
   \<and> requestLoggerMiddleware (Obj []) = Inr (Middleware Undefined)
   \<and> fst (middleware_call demo_host (Middleware Undefined) demo_request 0 [ASend (Str ''OK''), AFinish]
            demo_store) = []
   \<and> fst (snd (middleware_call demo_host (Middleware Undefined) demo_request 0
                  [ASend (Str ''OK''), AFinish] demo_store)) = Inl TypeError"
proof -
  have g: "get_prop (Obj []) ''logger'' = Inr Undefined" by (simp add: get_prop_def)
  have c: "\<not> callable Undefined" by simp
  show ?thesis
    using g c missing_logger_fails_per_request [OF g c, of demo_host demo_request 0
      "[ASend (Str ''OK''), AFinish]" demo_store]
    by simp
qed

text \<open>
  Claim C10. If the logger throws \<open>e\<close> on the receipt line, the run of the middleware
  is the run of that logger call and nothing more: the exception \<open>e\<close>, the store the
  logger left, and no event of the middleware's own, so no write of the \<^verbatim>\<open>send\<close> slot,
  no listener registration, no write of \<^verbatim>\<open>contentBody\<close> and no call of the
  continuation. With a host logger that respects the frame, the response is as before.
\<close>

theorem receipt_failure_stops_exchange:
  assumes "fst (snd (call h logger None (receipt req) s)) = Inl e"
  shows "middleware_call h (Middleware logger) req res nxt s = call h logger None (receipt req) s
     \<and> (\<forall>n. logger = Native n \<longrightarrow>
          middleware_call h (Middleware logger) req res nxt s =
            ([ECall (Native n) None (receipt req)], Inl e, snd (h n None (receipt req) s)))
     \<and> (frame h res \<and> is_native logger \<longrightarrow>
          heap (snd (snd (middleware_call h (Middleware logger) req res nxt s))) res = heap s res)"
proof -
  have eq: "middleware_call h (Middleware logger) req res nxt s = call h logger None (receipt req) s"
    using assms by (auto simp: middleware_call_unfold split: prod.splits)
  have nat: "\<forall>n. logger = Native n \<longrightarrow>
          middleware_call h (Middleware logger) req res nxt s =
            ([ECall (Native n) None (receipt req)], Inl e, snd (h n None (receipt req) s))"
    using assms unfolding eq by (auto simp: call_Native prod_eq_iff)
  have fr: "frame h res \<and> is_native logger \<longrightarrow>
          heap (snd (snd (middleware_call h (Middleware logger) req res nxt s))) res = heap s res"
    unfolding eq by (cases logger) (auto simp: call_Native frame_def)
  from eq nat fr show ?thesis by blast
qed

theorem receipt_failure_stops_exchange_witness:
  "fst (snd (call failing_host (Native 0) None (receipt demo_request) demo_store)) =
     Inl (Thrown (Str ''boom''))
   \<and> fst (middleware_call failing_host (Middleware (Native 0)) demo_request 0
            [ASend (Str ''OK''), AFinish] demo_store) =
       [ECall (Native 0) None [Str ''RECV <<<'', Str ''GET'', Str ''/api/health'', Str ''localhost'']]
   \<and> fst (snd (middleware_call failing_host (Middleware (Native 0)) demo_request 0
                  [ASend (Str ''OK''), AFinish] demo_store)) = Inl (Thrown (Str ''boom''))
   \<and> heap (snd (snd (middleware_call failing_host (Middleware (Native 0)) demo_request 0
                  [ASend (Str ''OK''), AFinish] demo_store))) 0 = fresh_response"
proof -
  have h: "fst (snd (call failing_host (Native 0) None (receipt demo_request) demo_store)) =
     Inl (Thrown (Str ''boom''))"
    by (simp add: call_Native failing_host_def)
  have f: "frame failing_host 0" by (simp add: frame_def failing_host_def)
  show ?thesis
    using h f receipt_failure_stops_exchange [OF h, of 0 "[ASend (Str ''OK''), AFinish]"]
    by (simp add: call_Native receipt_def demo_request_def demo_store_def failing_host_def)
qed

text \<open>
  Claim C5. With a host function as logger, the first event of every run of the
  middleware is the entry of the logger with the marker, the method, the URL and the
  host name of the request, in the store the middleware was called in. The write of
  the \<^verbatim>\<open>send\<close> slot, the registration of the listener and the call of the continuation
  follow it, in this order, and only if the logger returned. Up to the call of the
  continuation the logger is entered exactly once.
\<close>

theorem receipt_precedes_everything:
  "fst (middleware_call h (Middleware (Native n)) req res nxt s) =
     ECall (Native n) None [Str ''RECV <<<'', req_method req, url req, hostname req] #
     (case fst (h n None (receipt req) s) of
        Inl e \<Rightarrow> []
      | Inr v \<Rightarrow>
          [ESetSend res (Interceptor res (send (heap (snd (h n None (receipt req) s)) res))),
           EOn res (FinishListener (Native n) res), ENext] @
          fst (run_actions h res nxt
                 (on_finish res (FinishListener (Native n) res)
                    (set_send res (Interceptor res (send (heap (snd (h n None (receipt req) s)) res)))
                       (snd (h n None (receipt req) s))))))
   \<and> log_entries (Native n)
        (takeWhile (\<lambda>e. e \<noteq> ENext) (fst (middleware_call h (Middleware (Native n)) req res nxt s))) =
       [[Str ''RECV <<<'', req_method req, url req, hostname req]]"
  by (simp add: middleware_call_unfold call_Native receipt_def split_beta split: sum.splits)

section \<open>Whole exchanges\<close>

text \<open>
  Claim C2. On a response whose \<^verbatim>\<open>send\<close> slot holds a host function, with a host
  logger and a host that respects the frame, after the middleware has run and
  \<^verbatim>\<open>send\<close> has been invoked once, the slot holds the very value it held before the
  middleware ran. When the logger returned, the trace shows the round trip: the
  interceptor is installed, the send goes through it, and it writes the original back
  before calling it.
\<close>

theorem send_slot_round_trip:
  assumes "frame h res" and "send (heap s res) = Native k"
    and "middleware_call h (Middleware (Native n)) req res [ASend c] s = (evs, r, s')"
  shows "send (heap s' res) = send (heap s res)
     \<and> (\<forall>v. fst (h n None (receipt req) s) = Inr v \<longrightarrow>
          evs = [ECall (Native n) None (receipt req),
                 ESetSend res (Interceptor res (Native k)),
                 EOn res (FinishListener (Native n) res),
                 ENext,
                 ESetContentBody res c,
                 ESetSend res (Native k),
                 ECall (Native k) (Some res) [c]])"
proof (cases "fst (h n None (receipt req) s)")
  case (Inl e)
  then show ?thesis
    using assms middleware_call_fails [where h = h and n = n and req = req and s = s, OF Inl, of res "[ASend c]"] by (auto simp: frame_heap)
next
  case (Inr v)
  let ?s3 = "on_finish res (FinishListener (Native n) res)
               (set_send res (Interceptor res (Native k)) (snd (h n None (receipt req) s)))"
  have slot: "send (heap ?s3 res) = Interceptor res (Native k)" by simp
  show ?thesis
    using assms(2,3) Inr res_send_pending [OF assms(1) slot, of c]
      middleware_call_installs(1) [OF assms(1,2) Inr, of "[ASend c]"]
    by (auto simp: split_beta split: sum.splits)
qed

theorem send_slot_round_trip_witness:
  "frame demo_host 0 \<and> send (heap demo_store 0) = Native 1
   \<and> send (heap (snd (snd (middleware_call demo_host (Middleware (Native 0)) demo_request 0
                              [ASend (Str ''OK'')] demo_store))) 0) = Native 1
   \<and> fst (middleware_call demo_host (Middleware (Native 0)) demo_request 0 [ASend (Str ''OK'')] demo_store) =
       [ECall (Native 0) None [Str ''RECV <<<'', Str ''GET'', Str ''/api/health'', Str ''localhost''],
        ESetSend 0 (Interceptor 0 (Native 1)),
        EOn 0 (FinishListener (Native 0) 0),
        ENext,
        ESetContentBody 0 (Str ''OK''),
        ESetSend 0 (Native 1),
        ECall (Native 1) (Some 0) [Str ''OK'']]"
proof -
  have sl: "send (heap demo_store 0) = Native 1"
    by (simp add: demo_store_def fresh_response_def)
  have lg: "fst (demo_host 0 None (receipt demo_request) demo_store) = Inr Undefined"
    by (simp add: demo_host_def)
  show ?thesis
    using send_slot_round_trip [OF frame_demo_host sl run_collapse, of 0 demo_request "Str ''OK''"]
      lg sl frame_demo_host
    by (simp add: receipt_def demo_request_def)
qed

text \<open>
  Claim C4. Same setting, the listeners registered before the middleware being host
  functions. In an exchange where \<^verbatim>\<open>send\<close> is invoked once with \<open>c\<close> and the
  completion signal fires afterwards, the trace is a prefix of: receipt, installation,
  the send through the interceptor, the earlier listeners, and the entry of the logger
  with the send marker and \<open>c\<close>. When the exchange completes without exception the
  trace is all of it, and \<^verbatim>\<open>res.contentBody\<close> reads as \<open>c\<close>; it does complete when no
  host function throws.
\<close>

theorem send_entry_carries_content:
  assumes "frame h res" and "send (heap s res) = Native k"
    and "list_all is_native (finish_listeners (heap s res))"
    and "middleware_call h (Middleware (Native n)) req res [ASend c, AFinish] s = (evs, r, s')"
    and "full = [ECall (Native n) None (receipt req),
                 ESetSend res (Interceptor res (Native k)),
                 EOn res (FinishListener (Native n) res),
                 ENext,
                 ESetContentBody res c,
                 ESetSend res (Native k),
                 ECall (Native k) (Some res) [c]] @
                map (\<lambda>l. ECall l (Some res) []) (finish_listeners (heap s res)) @
                [ECall (Native n) None [Str ''SEND >>>'', c]]"
  shows "prefix evs full
     \<and> (r = Inr Undefined \<longrightarrow> evs = full \<and> get_contentBody (heap s' res) = c)
     \<and> (returns h \<longrightarrow> r = Inr Undefined)"
proof (cases "fst (h n None (receipt req) s)")
  case (Inl e)
  then show ?thesis
    using assms(4,5) returns_Inr [of h n None "receipt req" s]
      middleware_call_fails [where h = h and n = n and req = req and s = s, OF Inl, of res "[ASend c, AFinish]"]
    by auto
next
  case (Inr v)
  note inst = middleware_call_installs [OF assms(1,2) Inr]
  note ref = run_actions_refines [OF assms(1,3) inst(2), of "[ASend c, AFinish]"]
  have ret: "returns h \<longrightarrow> r = Inr Undefined"
    using run_actions_returns [OF assms(1) _ assms(3) inst(2), of "[ASend c, AFinish]"]
      assms(4) inst(1) [of "[ASend c, AFinish]"]
    by (auto simp: split_beta)
  show ?thesis
    using ref ret assms(4,5) inst(1) [of "[ASend c, AFinish]"]
    by (auto simp: split_beta phase_inv_def split: sum.splits)
qed

theorem send_entry_carries_content_witness:
  "frame demo_host 0 \<and> send (heap demo_store 0) = Native 1
   \<and> list_all is_native (finish_listeners (heap demo_store 0)) \<and> returns demo_host
   \<and> fst (snd (middleware_call demo_host (Middleware (Native 0)) demo_request 0
                  [ASend (Str ''OK''), AFinish] demo_store)) = Inr Undefined
   \<and> fst (middleware_call demo_host (Middleware (Native 0)) demo_request 0
            [ASend (Str ''OK''), AFinish] demo_store) =
       [ECall (Native 0) None [Str ''RECV <<<'', Str ''GET'', Str ''/api/health'', Str ''localhost''],
        ESetSend 0 (Interceptor 0 (Native 1)),
        EOn 0 (FinishListener (Native 0) 0),
        ENext,
        ESetContentBody 0 (Str ''OK''),
        ESetSend 0 (Native 1),
        ECall (Native 1) (Some 0) [Str ''OK''],
        ECall (Native 2) (Some 0) [],
        ECall (Native 0) None [Str ''SEND >>>'', Str ''OK'']]"
proof -
  have sl: "send (heap demo_store 0) = Native 1"
    by (simp add: demo_store_def fresh_response_def)
  have ls: "list_all is_native (finish_listeners (heap demo_store 0))"
    by (simp add: demo_store_def fresh_response_def)
  show ?thesis
    using send_entry_carries_content [OF frame_demo_host sl ls run_collapse refl,
        of 0 demo_request "Str ''OK''"]
      sl ls frame_demo_host returns_demo_host
    by (simp add: receipt_def demo_request_def demo_store_def fresh_response_def)
qed

text \<open>
  Claim C3. Same setting, the logger being neither the original \<^verbatim>\<open>send\<close> nor one of
  the earlier listeners. In an exchange where \<^verbatim>\<open>send\<close> is invoked with \<open>c1\<close>, then
  with \<open>c2\<close>, and the completion signal fires afterwards, the first send goes through
  the interceptor and the second one enters the original operation directly, with no
  write of \<^verbatim>\<open>contentBody\<close>. Whatever throws, the log is a prefix of the receipt line
  followed by the send line with \<open>c1\<close>; no entry is made from \<open>c2\<close>. When the exchange
  completes, the log is these two lines and \<^verbatim>\<open>res.contentBody\<close> reads as \<open>c1\<close>.
\<close>

theorem second_send_bypasses_interceptor:
  assumes "frame h res" and "send (heap s res) = Native k"
    and "list_all is_native (finish_listeners (heap s res))"
    and "n \<noteq> k" and "Native n \<notin> set (finish_listeners (heap s res))"
    and "middleware_call h (Middleware (Native n)) req res [ASend c1, ASend c2, AFinish] s = (evs, r, s')"
    and "full = [ECall (Native n) None (receipt req),
                 ESetSend res (Interceptor res (Native k)),
                 EOn res (FinishListener (Native n) res),
                 ENext,
                 ESetContentBody res c1,
                 ESetSend res (Native k),
                 ECall (Native k) (Some res) [c1],
                 ECall (Native k) (Some res) [c2]] @
                map (\<lambda>l. ECall l (Some res) []) (finish_listeners (heap s res)) @
                [ECall (Native n) None [Str ''SEND >>>'', c1]]"
  shows "prefix evs full
     \<and> prefix (log_entries (Native n) evs) [receipt req, [Str ''SEND >>>'', c1]]
     \<and> (r = Inr Undefined \<longrightarrow>
          evs = full \<and> get_contentBody (heap s' res) = c1
          \<and> log_entries (Native n) evs = [receipt req, [Str ''SEND >>>'', c1]])
     \<and> (returns h \<longrightarrow> r = Inr Undefined)"
proof -
  have lf: "log_entries (Native n) full = [receipt req, [Str ''SEND >>>'', c1]]"
    using assms(4,5) by (simp add: assms(7) log_entries_append log_entries_listeners)
  have main: "prefix evs full
     \<and> (r = Inr Undefined \<longrightarrow> evs = full \<and> get_contentBody (heap s' res) = c1)
     \<and> (returns h \<longrightarrow> r = Inr Undefined)"
  proof (cases "fst (h n None (receipt req) s)")
    case (Inl e)
    then show ?thesis
      using assms(6,7) returns_Inr [of h n None "receipt req" s]
        middleware_call_fails [where h = h and n = n and req = req and s = s, OF Inl,
          of res "[ASend c1, ASend c2, AFinish]"]
      by auto
  next
    case (Inr v)
    note inst = middleware_call_installs [OF assms(1,2) Inr]
    note ref = run_actions_refines [OF assms(1,3) inst(2), of "[ASend c1, ASend c2, AFinish]"]
    have ret: "returns h \<longrightarrow> r = Inr Undefined"
      using run_actions_returns [OF assms(1) _ assms(3) inst(2), of "[ASend c1, ASend c2, AFinish]"]
        assms(6) inst(1) [of "[ASend c1, ASend c2, AFinish]"]
      by (auto simp: split_beta)
    show ?thesis
      using ref ret assms(6,7) inst(1) [of "[ASend c1, ASend c2, AFinish]"]
      by (auto simp: split_beta phase_inv_def split: sum.splits)
  qed
  from main have "prefix (log_entries (Native n) evs) (log_entries (Native n) full)"
    by (simp add: log_entries_prefix)
  with main lf show ?thesis by auto
qed

theorem second_send_bypasses_interceptor_witness:
  "frame demo_host 0 \<and> send (heap demo_store 0) = Native 1
   \<and> list_all is_native (finish_listeners (heap demo_store 0))
   \<and> (0::nat) \<noteq> 1 \<and> Native 0 \<notin> set (finish_listeners (heap demo_store 0))
   \<and> returns demo_host
   \<and> fst (middleware_call demo_host (Middleware (Native 0)) demo_request 0
            [ASend (Str ''first''), ASend (Str ''second''), AFinish] demo_store) =
       [ECall (Native 0) None [Str ''RECV <<<'', Str ''GET'', Str ''/api/health'', Str ''localhost''],
        ESetSend 0 (Interceptor 0 (Native 1)),
        EOn 0 (FinishListener (Native 0) 0),
        ENext,
        ESetContentBody 0 (Str ''first''),
        ESetSend 0 (Native 1),
        ECall (Native 1) (Some 0) [Str ''first''],
        ECall (Native 1) (Some 0) [Str ''second''],
        ECall (Native 2) (Some 0) [],
        ECall (Native 0) None [Str ''SEND >>>'', Str ''first'']]
   \<and> log_entries (Native 0)
        (fst (middleware_call demo_host (Middleware (Native 0)) demo_request 0
            [ASend (Str ''first''), ASend (Str ''second''), AFinish] demo_store)) =
       [[Str ''RECV <<<'', Str ''GET'', Str ''/api/health'', Str ''localhost''],
        [Str ''SEND >>>'', Str ''first'']]"
proof -
  have sl: "send (heap demo_store 0) = Native 1"
    by (simp add: demo_store_def fresh_response_def)
  have ls: "list_all is_native (finish_listeners (heap demo_store 0))"
    by (simp add: demo_store_def fresh_response_def)
  have ne: "(0::nat) \<noteq> 1" by simp
  have nl: "Native 0 \<notin> set (finish_listeners (heap demo_store 0))"
    by (simp add: demo_store_def fresh_response_def)
  show ?thesis
    using second_send_bypasses_interceptor [OF frame_demo_host sl ls ne nl run_collapse refl,
        of demo_request "Str ''first''" "Str ''second''"]
      sl ls nl frame_demo_host returns_demo_host
    by (simp add: receipt_def demo_request_def demo_store_def fresh_response_def)
qed

text \<open>
  Claim C8. Same setting, on a response whose \<^verbatim>\<open>contentBody\<close> was never written. In
  an exchange where the completion signal fires and \<^verbatim>\<open>send\<close> was never invoked, the
  listener still enters the logger, with the send marker and undefined. Reading the
  absent property raises nothing: a call of the listener has the events and the store
  of that call of the logger, throws exactly when the logger throws, with the same
  exception, and otherwise yields undefined. So the only failure it can have is the
  logger's own, and when no host function throws the exchange completes without
  exception.
\<close>

theorem absent_content_logged:
  assumes "frame h res" and "send (heap s res) = Native k"
    and "list_all is_native (finish_listeners (heap s res))"
    and "contentBody (heap s res) = None"
    and "middleware_call h (Middleware (Native n)) req res [AFinish] s = (evs, r, s')"
    and "full = [ECall (Native n) None (receipt req),
                 ESetSend res (Interceptor res (Native k)),
                 EOn res (FinishListener (Native n) res),
                 ENext] @
                map (\<lambda>l. ECall l (Some res) []) (finish_listeners (heap s res)) @
                [ECall (Native n) None [Str ''SEND >>>'', Undefined]]"
  shows "prefix evs full
     \<and> (r = Inr Undefined \<longrightarrow> evs = full)
     \<and> (returns h \<longrightarrow> r = Inr Undefined)
     \<and> call h (FinishListener (Native n) res) this args s =
         (case call h (Native n) None [Str ''SEND >>>'', Undefined] s of
            (evs, r, s1) \<Rightarrow> (evs, (case r of Inl e \<Rightarrow> Inl e | Inr v \<Rightarrow> Inr Undefined), s1))"
proof -
  have cb: "get_contentBody (heap s res) = Undefined"
    using assms(4) by (simp add: get_contentBody_def)
  have lis: "call h (FinishListener (Native n) res) this args s =
         (case call h (Native n) None [Str ''SEND >>>'', Undefined] s of
            (evs, r, s1) \<Rightarrow> (evs, (case r of Inl e \<Rightarrow> Inl e | Inr v \<Rightarrow> Inr Undefined), s1))"
    by (simp add: call_FinishListener cb)
  have main: "prefix evs full \<and> (r = Inr Undefined \<longrightarrow> evs = full) \<and> (returns h \<longrightarrow> r = Inr Undefined)"
  proof (cases "fst (h n None (receipt req) s)")
    case (Inl e)
    then show ?thesis
      using assms(5,6) returns_Inr [of h n None "receipt req" s]
        middleware_call_fails [where h = h and n = n and req = req and s = s, OF Inl,
          of res "[AFinish]"]
      by auto
  next
    case (Inr v)
    note inst = middleware_call_installs [OF assms(1,2) Inr]
    note ref = run_actions_refines [OF assms(1,3) inst(2), of "[AFinish]"]
    have ret: "returns h \<longrightarrow> r = Inr Undefined"
      using run_actions_returns [OF assms(1) _ assms(3) inst(2), of "[AFinish]"]
        assms(5) inst(1) [of "[AFinish]"]
      by (auto simp: split_beta)
    show ?thesis
      using ref ret assms(5,6) cb inst(1) [of "[AFinish]"]
      by (auto simp: split_beta split: sum.splits)
  qed
  with lis show ?thesis by simp
qed

theorem absent_content_logged_witness:
  "frame demo_host 0 \<and> send (heap demo_store 0) = Native 1
   \<and> list_all is_native (finish_listeners (heap demo_store 0))
   \<and> contentBody (heap demo_store 0) = None \<and> returns demo_host
   \<and> fst (snd (middleware_call demo_host (Middleware (Native 0)) demo_request 0 [AFinish] demo_store)) =
       Inr Undefined
   \<and> fst (middleware_call demo_host (Middleware (Native 0)) demo_request 0 [AFinish] demo_store) =
       [ECall (Native 0) None [Str ''RECV <<<'', Str ''GET'', Str ''/api/health'', Str ''localhost''],
        ESetSend 0 (Interceptor 0 (Native 1)),
        EOn 0 (FinishListener (Native 0) 0),
        ENext,
        ECall (Native 2) (Some 0) [],
        ECall (Native 0) None [Str ''SEND >>>'', Undefined]]"
proof -
  have sl: "send (heap demo_store 0) = Native 1"
    by (simp add: demo_store_def fresh_response_def)
  have ls: "list_all is_native (finish_listeners (heap demo_store 0))"
    by (simp add: demo_store_def fresh_response_def)
  have cb: "contentBody (heap demo_store 0) = None"
    by (simp add: demo_store_def fresh_response_def)
  show ?thesis
    using absent_content_logged [OF frame_demo_host sl ls cb run_collapse refl, of 0 demo_request]
      sl ls cb frame_demo_host returns_demo_host
    by (simp add: receipt_def demo_request_def demo_store_def fresh_response_def)
qed

end
